theory Spec2Isabelle
  imports Complex_Main "HOL-Library.Word" "HOL-Library.Sublist"
begin

section \<open>The flying carpet component (amp-fx-flying-carpet 0.1)\<close>

text \<open>
  A shallow embedding of \<^verbatim>\<open>src/extensions/amp-fx-flying-carpet/0.1/amp-fx-flying-carpet.js\<close>.
  The class \<^verbatim>\<open>AmpFlyingCarpet\<close> becomes a record of its fields together with the part of
  the DOM it reads and writes (a store from node references to nodes) and the trace of the
  calls it makes to the host runtime. Every method becomes a function from a state to a
  result and a new state; a \<^verbatim>\<open>throw\<close> is the left injection of the result.
\<close>

subsection \<open>JavaScript strings\<close>

text \<open>
  A JavaScript string is a sequence of 16-bit code units. \<open>js\<close> embeds an ASCII literal.
\<close>

type_synonym code_unit = "16 word"
type_synonym jsstring = "code_unit list"

definition js :: "string \<Rightarrow> jsstring" where
  "js s = map of_char s"

text \<open>
  The class \<^verbatim>\<open>\s\<close> of a regular expression, which is also the white space that
  \<^verbatim>\<open>Number\<close> strips from a string: TAB, LF, VT, FF, CR, SP, NBSP, U+1680, U+2000 to
  U+200A, LS, PS, U+202F, U+205F, U+3000 and U+FEFF.
\<close>

definition is_white_space :: "code_unit \<Rightarrow> bool" where
  "is_white_space c \<longleftrightarrow>
     c \<in> {0x09, 0x0A, 0x0B, 0x0C, 0x0D, 0x20, 0xA0, 0x1680, 0x2028, 0x2029, 0x202F, 0x205F,
           0x3000, 0xFEFF}
     \<or> (0x2000 \<le> c \<and> c \<le> 0x200A)"

text \<open>
  \<^verbatim>\<open>/\S/.test(s)\<close>: the expression has no anchor and no flag, so the test succeeds when
  some code unit of \<open>s\<close> is outside \<^verbatim>\<open>\s\<close>.
\<close>

definition regexp_S_test :: "jsstring \<Rightarrow> bool" where
  "regexp_S_test s = list_ex (\<lambda>c. \<not> is_white_space c) s"

subsection \<open>JavaScript numbers\<close>

text \<open>
  A number is NaN, an infinity, negative zero or a finite real: \<open>Fin 0\<close> is \<open>+0\<close> and
  \<open>NZero\<close> is \<open>-0\<close>. Division and \<^verbatim>\<open>Math.min\<close> follow ECMAScript on the special
  values; on finite nonzero operands they are exact, so the rounding of a double (and with
  it overflow to an infinity and underflow to zero) is outside the model.
\<close>

datatype jsnum = NaN | PInf | NInf | NZero | Fin real

fun is_negative :: "jsnum \<Rightarrow> bool" where
  "is_negative NInf = True"
| "is_negative NZero = True"
| "is_negative (Fin r) = (r < 0)"
| "is_negative _ = False"

fun is_infinity :: "jsnum \<Rightarrow> bool" where
  "is_infinity PInf = True"
| "is_infinity NInf = True"
| "is_infinity _ = False"

fun is_zero :: "jsnum \<Rightarrow> bool" where
  "is_zero NZero = True"
| "is_zero (Fin r) = (r = 0)"
| "is_zero _ = False"

fun real_of :: "jsnum \<Rightarrow> real" where
  "real_of (Fin r) = r"
| "real_of _ = 0"

definition signed_infinity :: "bool \<Rightarrow> jsnum" where
  "signed_infinity neg = (if neg then NInf else PInf)"

definition signed_zero :: "bool \<Rightarrow> jsnum" where
  "signed_zero neg = (if neg then NZero else Fin 0)"

text \<open>The operator \<^verbatim>\<open>/\<close> on numbers.\<close>

definition js_div :: "jsnum \<Rightarrow> jsnum \<Rightarrow> jsnum" where
  "js_div a b =
     (if a = NaN \<or> b = NaN then NaN
      else if is_infinity a then
        (if is_infinity b then NaN else signed_infinity (is_negative a \<noteq> is_negative b))
      else if is_infinity b then signed_zero (is_negative a \<noteq> is_negative b)
      else if is_zero b then
        (if is_zero a then NaN else signed_infinity (is_negative a \<noteq> is_negative b))
      else if is_zero a then signed_zero (is_negative a \<noteq> is_negative b)
      else Fin (real_of a / real_of b))"

text \<open>The order of the numbers other than NaN, in which \<open>-0\<close> is below \<open>+0\<close>.\<close>

fun js_less :: "jsnum \<Rightarrow> jsnum \<Rightarrow> bool" where
  "js_less NaN _ = False"
| "js_less _ NaN = False"
| "js_less _ NInf = False"
| "js_less NInf _ = True"
| "js_less PInf _ = False"
| "js_less _ PInf = True"
| "js_less NZero NZero = False"
| "js_less NZero (Fin r) = (0 \<le> r)"
| "js_less (Fin r) NZero = (r < 0)"
| "js_less (Fin r) (Fin q) = (r < q)"

text \<open>\<^verbatim>\<open>Math.min\<close> of two arguments: NaN when either is NaN, else the lower one.\<close>

definition Math_min :: "jsnum \<Rightarrow> jsnum \<Rightarrow> jsnum" where
  "Math_min a b = (if a = NaN \<or> b = NaN then NaN else if js_less b a then b else a)"

subsection \<open>The conversion \<^verbatim>\<open>Number(value)\<close> of null and of strings\<close>

text \<open>
  \<^verbatim>\<open>getAttribute\<close> returns null (\<open>None\<close>) for a missing attribute and its string
  otherwise. \<^verbatim>\<open>Number(null)\<close> is \<open>+0\<close>. A string is stripped of white space; the empty
  string is \<open>+0\<close>; a binary, octal or hexadecimal integer literal has no sign; a decimal
  literal has an optional sign, then \<^verbatim>\<open>Infinity\<close> or digits with an optional fraction
  and exponent; anything else is NaN.
\<close>

definition is_digit :: "code_unit \<Rightarrow> bool" where
  "is_digit c \<longleftrightarrow> 0x30 \<le> c \<and> c \<le> 0x39"

definition digit_in_radix :: "nat \<Rightarrow> code_unit \<Rightarrow> nat option" where
  "digit_in_radix b c =
     (let v = (if is_digit c then Some (unat (c - 0x30))
               else if 0x61 \<le> c \<and> c \<le> 0x66 then Some (unat (c - 0x61) + 10)
               else if 0x41 \<le> c \<and> c \<le> 0x46 then Some (unat (c - 0x41) + 10)
               else None)
      in case v of None \<Rightarrow> None | Some d \<Rightarrow> if d < b then Some d else None)"

fun digits_in_radix :: "nat \<Rightarrow> nat \<Rightarrow> jsstring \<Rightarrow> nat option" where
  "digits_in_radix b acc [] = Some acc"
| "digits_in_radix b acc (c # cs) =
     (case digit_in_radix b c of
        None \<Rightarrow> None
      | Some d \<Rightarrow> digits_in_radix b (b * acc + d) cs)"

definition DecimalDigits :: "jsstring \<Rightarrow> nat option" where
  "DecimalDigits s = (if s = [] then None else digits_in_radix 10 0 s)"

definition NonDecimalIntegerLiteral :: "jsstring \<Rightarrow> nat option" where
  "NonDecimalIntegerLiteral s =
     (case s of
        z # p # ds \<Rightarrow>
          if z \<noteq> 0x30 \<or> ds = [] then None
          else if p = 0x78 \<or> p = 0x58 then digits_in_radix 16 0 ds
          else if p = 0x6F \<or> p = 0x4F then digits_in_radix 8 0 ds
          else if p = 0x62 \<or> p = 0x42 then digits_in_radix 2 0 ds
          else None
      | _ \<Rightarrow> None)"

definition SignedInteger :: "jsstring \<Rightarrow> int option" where
  "SignedInteger s =
     (case s of
        [] \<Rightarrow> None
      | c # cs \<Rightarrow>
          if c = 0x2B then map_option int (DecimalDigits cs)
          else if c = 0x2D then map_option (\<lambda>n. - int n) (DecimalDigits cs)
          else map_option int (DecimalDigits s))"

definition ExponentPart_opt :: "jsstring \<Rightarrow> int option" where
  "ExponentPart_opt s =
     (case s of
        [] \<Rightarrow> Some 0
      | c # cs \<Rightarrow> if c = 0x65 \<or> c = 0x45 then SignedInteger cs else None)"

definition times_power_of_ten :: "real \<Rightarrow> int \<Rightarrow> real" where
  "times_power_of_ten m e = (if 0 \<le> e then m * 10 ^ nat e else m / 10 ^ nat (- e))"

definition StrUnsignedDecimalLiteral :: "jsstring \<Rightarrow> real option" where
  "StrUnsignedDecimalLiteral s =
     (let ip = takeWhile is_digit s;
          r1 = dropWhile is_digit s;
          fp = (case r1 of [] \<Rightarrow> [] | c # cs \<Rightarrow> if c = 0x2E then takeWhile is_digit cs else []);
          r2 = (case r1 of [] \<Rightarrow> [] | c # cs \<Rightarrow> if c = 0x2E then dropWhile is_digit cs else r1)
      in if ip = [] \<and> fp = [] then None
         else case (digits_in_radix 10 0 ip, digits_in_radix 10 0 fp, ExponentPart_opt r2) of
                (Some i, Some f, Some e) \<Rightarrow>
                  Some (times_power_of_ten (real i + real f / 10 ^ length fp) e)
              | _ \<Rightarrow> None)"

definition StrDecimalLiteral :: "jsstring \<Rightarrow> jsnum" where
  "StrDecimalLiteral s =
     (let neg = (case s of [] \<Rightarrow> False | c # _ \<Rightarrow> c = 0x2D);
          body = (case s of [] \<Rightarrow> [] | c # cs \<Rightarrow> if c = 0x2B \<or> c = 0x2D then cs else s)
      in if body = js ''Infinity'' then signed_infinity neg
         else case StrUnsignedDecimalLiteral body of
                None \<Rightarrow> NaN
              | Some v \<Rightarrow> if neg then (if v = 0 then NZero else Fin (- v)) else Fin v)"

definition StringToNumber :: "jsstring \<Rightarrow> jsnum" where
  "StringToNumber s =
     (let t = rev (dropWhile is_white_space (rev (dropWhile is_white_space s)))
      in if t = [] then Fin 0
         else case NonDecimalIntegerLiteral t of
                Some n \<Rightarrow> Fin (real n)
              | None \<Rightarrow> StrDecimalLiteral t)"

definition Number :: "jsstring option \<Rightarrow> jsnum" where
  "Number v = (case v of None \<Rightarrow> Fin 0 | Some s \<Rightarrow> StringToNumber s)"

subsection \<open>DOM nodes and the store\<close>

text \<open>
  Nodes are objects: the component keeps references to them, compares them by identity
  (\<^verbatim>\<open>indexOf\<close>) and writes to their style. A reference is a number and the store maps
  each reference to the node's current fields. A private name of the source ends in an
  underscore, which an Isabelle name cannot: the underscore is dropped, so \<open>layout\<close> is
  the field \<^verbatim>\<open>layout_\<close> of an AMP element that \<^verbatim>\<open>assertScalable_\<close> reads (\<open>None\<close>
  when the field is undefined). \<open>style_transform\<close> is \<^verbatim>\<open>style.transform\<close>.
\<close>

type_synonym ref = nat

datatype transform = Scale jsnum

record node =
  nodeType :: nat
  textContent :: jsstring
  attributes :: "string \<rightharpoonup> jsstring"
  layout :: "string option"
  style_transform :: "transform option"

type_synonym store = "ref \<Rightarrow> node"

subsection \<open>The visible children\<close>

text \<open>
  \<^verbatim>\<open>visibileChildren_(nodes)\<close> (the name is the source's): \<^verbatim>\<open>Array.prototype.filter\<close>
  with a callback that accepts node type 1, tests the text of node type 3 and rejects the
  rest.
\<close>

definition visibileChildren :: "store \<Rightarrow> ref list \<Rightarrow> ref list" where
  "visibileChildren h nodes =
     filter (\<lambda>r. if nodeType (h r) = 1 then True
                 else if nodeType (h r) = 3 then regexp_S_test (textContent (h r))
                 else False) nodes"

subsection \<open>Errors, promises and the calls to the host\<close>

text \<open>
  \<^verbatim>\<open>userAssert\<close> throws a user error carrying its message when its condition is false.
  Reading a property of \<^verbatim>\<open>undefined\<close> throws a \<^verbatim>\<open>TypeError\<close>, and
  \<^verbatim>\<open>dev().assertElement\<close> throws when its argument is not an element.
\<close>

datatype user_message =
    MustBeAfterFirstViewport
  | MustBeBeforeLastViewport
  | ShouldHaveOnlyOneChild
  | ChildShouldHaveFixedLayout

datatype error = UserError user_message | TypeError | DevAssertion

datatype promise = Fulfilled | Rejected

datatype returned = Undefined | Promise promise

text \<open>\<^verbatim>\<open>p.catch(() => {})\<close>: the handler returns normally, so the new promise is fulfilled.\<close>

fun catch_and_ignore :: "promise \<Rightarrow> promise" where
  "catch_and_ignore Fulfilled = Fulfilled"
| "catch_and_ignore Rejected = Fulfilled"

text \<open>
  What the component asks of the base class, the viewport and the console is recorded in
  the order it happens. \<open>Collapse\<close> is \<^verbatim>\<open>this.collapse()\<close> and \<open>AttemptCollapse\<close> is
  \<^verbatim>\<open>this.attemptCollapse()\<close>.
\<close>

datatype host_call =
    CreateElement ref
  | SetAttribute ref string string
  | AppendChild ref ref
  | SetAsOwner ref
  | AddToFixedLayer ref bool
  | MutateContainerWidth real
  | ScheduleLayout "ref list"
  | ListenBuilt
  | UpdateInViewport "ref list" bool
  | ConsoleWarn
  | ConsoleLog
  | Collapse
  | AttemptCollapse

text \<open>
  What the host answers when asked: the measurements are finite reals. \<open>getHeight\<close>,
  \<open>getWidth\<close> and \<open>getScrollHeight\<close> are the viewport's, \<open>layoutBox_top\<close> is
  \<^verbatim>\<open>this.element.getLayoutBox().top\<close> and \<open>getLayoutWidth\<close> is the base class's.
\<close>

record measurements =
  getHeight :: real
  getWidth :: real
  getScrollHeight :: real
  layoutBox_top :: real
  getLayoutWidth :: real

subsection \<open>The component\<close>

record flying_carpet =
  element :: ref
  children :: "ref list"
  totalChildren :: int
  container :: "ref option"
  scaleContent :: bool
  firstLayoutCompleted :: bool
  nodes :: store
  calls :: "host_call list"

definition constructor :: "ref \<Rightarrow> store \<Rightarrow> flying_carpet" where
  "constructor el h =
     \<lparr>element = el, children = [], totalChildren = 0, container = None,
      scaleContent = False, firstLayoutCompleted = False, nodes = h, calls = []\<rparr>"

definition call :: "host_call list \<Rightarrow> flying_carpet \<Rightarrow> flying_carpet" where
  "call cs s = s\<lparr>calls := calls s @ cs\<rparr>"

text \<open>
  Modelled from the spec: the constant \<^verbatim>\<open>Layout.FIXED\<close> of \<^verbatim>\<open>src/layout\<close>, the layout
  mode "fixed".
\<close>

definition Layout_FIXED :: string where
  "Layout_FIXED = ''fixed''"

text \<open>
  Modelled from the spec: \<^verbatim>\<open>getRealChildren\<close> of the base class, which is not among the
  sources. The host's \<^verbatim>\<open>getRealChildNodes()\<close> answers with the real child nodes, elements
  and text alike, and \<^verbatim>\<open>getRealChildren()\<close> answers with the elements among them.
\<close>

definition getRealChildren :: "store \<Rightarrow> ref list \<Rightarrow> ref list" where
  "getRealChildren h realChildNodes = filter (\<lambda>r. nodeType (h r) = 1) realChildNodes"

text \<open>What \<^verbatim>\<open>buildCallback\<close> receives from the host: the real child nodes and the two
  \<^verbatim>\<open>div\<close> elements that \<^verbatim>\<open>createElement\<close> returns.\<close>

record build_host =
  getRealChildNodes :: "ref list"
  created_container :: ref
  created_clip :: ref

definition assertScalable :: "flying_carpet \<Rightarrow> error + unit" where
  "assertScalable s =
     (let childrenCount = length (children s) in
      if childrenCount \<noteq> 1 then Inl (UserError ShouldHaveOnlyOneChild)
      else let child = children s ! 0 in
        if layout (nodes s child) \<noteq> Some Layout_FIXED
        then Inl (UserError ChildShouldHaveFixedLayout)
        else Inr ())"

definition hasAttribute :: "flying_carpet \<Rightarrow> string \<Rightarrow> bool" where
  "hasAttribute s name \<longleftrightarrow> attributes (nodes s (element s)) name \<noteq> None"

definition buildCallback :: "build_host \<Rightarrow> flying_carpet \<Rightarrow> flying_carpet" where
  "buildCallback host s =
     (let container = created_container host;
          s1 = call [CreateElement container] s;
          s2 = s1\<lparr>children := getRealChildren (nodes s1) (getRealChildNodes host),
                  container := Some container\<rparr>;
          childNodes = getRealChildNodes host;
          s3 = s2\<lparr>totalChildren := int (length (visibileChildren (nodes s2) childNodes))\<rparr>;
          s4 = call (map SetAsOwner (children s3)) s3;
          s5 = (if hasAttribute s4 ''scale-content''
                then (case assertScalable s4 of
                        Inr _ \<Rightarrow> s4\<lparr>scaleContent := True\<rparr>
                      | Inl _ \<Rightarrow> call [ConsoleWarn] s4)
                else s4);
          clip = created_clip host
      in call ([CreateElement clip,
                SetAttribute clip ''class'' ''i-amphtml-fx-flying-carpet-clip'',
                SetAttribute container ''class'' ''i-amphtml-fx-flying-carpet-container'']
               @ map (AppendChild container) childNodes
               @ [AppendChild clip container, AppendChild (element s5) clip,
                  AddToFixedLayer container False]) s5)"

text \<open>
  \<^verbatim>\<open>applyScaleTransform_(child)\<close>. The argument is \<open>None\<close> when the caller passes
  \<^verbatim>\<open>undefined\<close>, and \<^verbatim>\<open>child.getAttribute\<close> then throws. The template string
  \<^verbatim>\<open>scale(...)\<close> is kept as the constructor \<open>Scale\<close> around the number.
\<close>

definition scaleCoefficient :: "measurements \<Rightarrow> node \<Rightarrow> jsnum" where
  "scaleCoefficient m child =
     (let viewportHeight = getHeight m;
          viewportWidth = getWidth m;
          width = Number (attributes child ''width'');
          height = Number (attributes child ''height'')
      in Math_min (js_div (Fin viewportWidth) width) (js_div (Fin viewportHeight) height))"

definition applyScaleTransform ::
  "measurements \<Rightarrow> ref option \<Rightarrow> flying_carpet \<Rightarrow> (error + unit) \<times> flying_carpet" where
  "applyScaleTransform m child s =
     (case child of
        None \<Rightarrow> (Inl TypeError, s)
      | Some c \<Rightarrow>
          let s1 = call [ConsoleLog, ConsoleLog] s;
              k = scaleCoefficient m (nodes s1 c)
          in (Inr (),
              s1\<lparr>nodes := (nodes s1)(c := (nodes s1 c)\<lparr>style_transform := Some (Scale k)\<rparr>)\<rparr>))"

text \<open>\<^verbatim>\<open>this.children_[0]\<close>: undefined when the array is empty.\<close>

definition first_child :: "ref list \<Rightarrow> ref option" where
  "first_child cs = (case cs of [] \<Rightarrow> None | c # _ \<Rightarrow> Some c)"

definition onMeasureChanged ::
  "measurements \<Rightarrow> flying_carpet \<Rightarrow> (error + unit) \<times> flying_carpet" where
  "onMeasureChanged m s =
     (let width = getLayoutWidth m;
          s1 = call [MutateContainerWidth width] s;
          s2 = (if firstLayoutCompleted s1
                then call [ScheduleLayout (children s1), ListenBuilt] s1
                else s1)
      in if scaleContent s2 then applyScaleTransform m (first_child (children s2)) s2
         else (Inr (), s2))"

definition viewportCallback :: "bool \<Rightarrow> flying_carpet \<Rightarrow> flying_carpet" where
  "viewportCallback inViewport s = call [UpdateInViewport (children s) inViewport] s"

definition assertPosition :: "measurements \<Rightarrow> error + unit" where
  "assertPosition m =
     (let top = layoutBox_top m;
          viewportHeight = getHeight m;
          docHeight = getScrollHeight m;
          minTop = viewportHeight * 0.75;
          maxTop = docHeight - viewportHeight * 0.95
      in if \<not> top \<ge> minTop then Inl (UserError MustBeAfterFirstViewport)
         else if \<not> top \<le> maxTop then Inl (UserError MustBeBeforeLastViewport)
         else Inr ())"

definition layoutCallback ::
  "measurements \<Rightarrow> flying_carpet \<Rightarrow> (error + returned) \<times> flying_carpet" where
  "layoutCallback m s =
     (case assertPosition m of
        Inl e \<Rightarrow> (Inl e, call [Collapse] s)
      | Inr _ \<Rightarrow>
          let s1 = call [ScheduleLayout (children s), ListenBuilt] s
          in (Inr (Promise Fulfilled), s1\<lparr>firstLayoutCompleted := True\<rparr>))"

text \<open>
  \<^verbatim>\<open>layoutBuiltChild_(event)\<close>: \<open>target\<close> is \<^verbatim>\<open>event.target\<close> and \<open>owned\<close> is the host's
  answer to \<^verbatim>\<open>child.getOwner() === this.element\<close>.
\<close>

definition layoutBuiltChild ::
  "measurements \<Rightarrow> ref \<Rightarrow> bool \<Rightarrow> flying_carpet \<Rightarrow> (error + unit) \<times> flying_carpet" where
  "layoutBuiltChild m target owned s =
     (if nodeType (nodes s target) \<noteq> 1 then (Inl DevAssertion, s)
      else let child = target in
        if owned then
          (let s1 = call [ScheduleLayout [child]] s
           in if scaleContent s1 then applyScaleTransform m (Some child) s1
              else (Inr (), s1))
        else (Inr (), s))"

text \<open>\<^verbatim>\<open>Array.prototype.indexOf\<close> and \<^verbatim>\<open>splice(index, 1)\<close>.\<close>

fun indexOf :: "'a list \<Rightarrow> 'a \<Rightarrow> int" where
  "indexOf [] x = -1"
| "indexOf (y # ys) x =
     (if y = x then 0 else let i = indexOf ys x in if i > -1 then i + 1 else -1)"

definition splice1 :: "'a list \<Rightarrow> int \<Rightarrow> 'a list" where
  "splice1 xs index = take (nat index) xs @ drop (nat index + 1) xs"

text \<open>
  \<^verbatim>\<open>collapsedCallback(child)\<close>. \<open>attempt\<close> is the promise that the host's
  \<^verbatim>\<open>attemptCollapse()\<close> returns.
\<close>

definition collapsedCallback ::
  "promise \<Rightarrow> ref \<Rightarrow> flying_carpet \<Rightarrow> returned \<times> flying_carpet" where
  "collapsedCallback attempt child s =
     (let index = indexOf (children s) child in
      if index > -1 then
        (let s1 = s\<lparr>children := splice1 (children s) index\<rparr>;
             s2 = s1\<lparr>totalChildren := totalChildren s1 - 1\<rparr>
         in if totalChildren s2 = 0
            then (Promise (catch_and_ignore attempt), call [AttemptCollapse] s2)
            else (Undefined, s2))
      else (Undefined, s))"

definition getChildren :: "flying_carpet \<Rightarrow> ref list" where
  "getChildren s = children s"

subsection \<open>The host's callbacks after build\<close>

text \<open>
  After \<^verbatim>\<open>buildCallback\<close> the host invokes the other callbacks, one at a time and in any
  order; the built-child listener counts as one of them. A callback that throws leaves the
  state as it was at the throw.
\<close>

datatype callback =
    OnMeasureChanged measurements
  | ViewportCallback bool
  | LayoutCallback measurements
  | LayoutBuiltChild measurements ref bool
  | CollapsedCallback promise ref

fun step :: "flying_carpet \<Rightarrow> callback \<Rightarrow> flying_carpet" where
  "step s (OnMeasureChanged m) = snd (onMeasureChanged m s)"
| "step s (ViewportCallback v) = viewportCallback v s"
| "step s (LayoutCallback m) = snd (layoutCallback m s)"
| "step s (LayoutBuiltChild m target owned) = snd (layoutBuiltChild m target owned s)"
| "step s (CollapsedCallback attempt child) = snd (collapsedCallback attempt child s)"

definition run :: "flying_carpet \<Rightarrow> callback list \<Rightarrow> flying_carpet" where
  "run s cbs = foldl step s cbs"

text \<open>How often the component has asked the host to collapse it.\<close>

definition collapse_requests :: "flying_carpet \<Rightarrow> nat" where
  "collapse_requests s = length (filter (\<lambda>c. c = AttemptCollapse) (calls s))"

definition built :: "build_host \<Rightarrow> ref \<Rightarrow> store \<Rightarrow> flying_carpet" where
  "built host el h = buildCallback host (constructor el h)"

subsection \<open>The words of the specification\<close>

text \<open>
  The specification speaks of element nodes, of text nodes with at least one non-whitespace
  character, and of finite positive and finite nonzero numbers.
\<close>

definition is_element :: "store \<Rightarrow> ref \<Rightarrow> bool" where
  "is_element h r \<longleftrightarrow> nodeType (h r) = 1"

definition is_nonblank_text :: "store \<Rightarrow> ref \<Rightarrow> bool" where
  "is_nonblank_text h r \<longleftrightarrow>
     nodeType (h r) = 3 \<and> (\<exists>c \<in> set (textContent (h r)). \<not> is_white_space c)"

definition retained_by_spec :: "store \<Rightarrow> ref \<Rightarrow> bool" where
  "retained_by_spec h r \<longleftrightarrow> is_element h r \<or> is_nonblank_text h r"

fun is_finite_positive :: "jsnum \<Rightarrow> bool" where
  "is_finite_positive (Fin r) = (0 < r)"
| "is_finite_positive _ = False"

fun is_finite_nonzero :: "jsnum \<Rightarrow> bool" where
  "is_finite_nonzero (Fin r) = (r \<noteq> 0)"
| "is_finite_nonzero _ = False"

fun is_finite :: "jsnum \<Rightarrow> bool" where
  "is_finite (Fin r) = True"
| "is_finite NZero = True"
| "is_finite _ = False"

subsection \<open>A small document\<close>

text \<open>
  Node 10 is a flying carpet with the attribute \<^verbatim>\<open>scale-content\<close>; node 11 is an
  element of fixed layout, 400 by 300; node 12 is a responsive element; node 13 is the text
  "hi"; node 14 is a blank text; node 16 is an element that declares a height and no width;
  node 17 is an element of width "auto"; every other node is a comment.
\<close>

definition element_node :: "string option \<Rightarrow> (string \<rightharpoonup> jsstring) \<Rightarrow> node" where
  "element_node l as =
     \<lparr>nodeType = 1, textContent = [], attributes = as, layout = l, style_transform = None\<rparr>"

definition text_node :: "jsstring \<Rightarrow> node" where
  "text_node t =
     \<lparr>nodeType = 3, textContent = t, attributes = Map.empty, layout = None,
      style_transform = None\<rparr>"

definition comment_node :: "jsstring \<Rightarrow> node" where
  "comment_node t =
     \<lparr>nodeType = 8, textContent = t, attributes = Map.empty, layout = None,
      style_transform = None\<rparr>"

definition example_dom :: store where
  "example_dom =
     (\<lambda>r. comment_node (js ''note''))
       (10 := element_node None [''scale-content'' \<mapsto> []],
        11 := element_node (Some ''fixed'') [''width'' \<mapsto> js ''400'', ''height'' \<mapsto> js ''300''],
        12 := element_node (Some ''responsive'') Map.empty,
        13 := text_node (js ''hi''),
        14 := text_node (js '' ''),
        16 := element_node (Some ''fixed'') [''height'' \<mapsto> js ''300''],
        17 := element_node (Some ''fixed'') [''width'' \<mapsto> js ''auto'', ''height'' \<mapsto> js ''300''])"

definition example_measurements :: measurements where
  "example_measurements =
     \<lparr>getHeight = 600, getWidth = 800, getScrollHeight = 3000, layoutBox_top = 1000,
      getLayoutWidth = 800\<rparr>"

definition example_host :: "ref list \<Rightarrow> build_host" where
  "example_host ns = \<lparr>getRealChildNodes = ns, created_container = 100, created_clip = 101\<rparr>"

subsection \<open>Further notions and examples used in the statements\<close>


text \<open>The part of the counter that no tracked child accounts for.\<close>

definition hidden_text :: "flying_carpet \<Rightarrow> int" where
  "hidden_text s = totalChildren s - int (length (children s))"


text \<open>
  The flying carpet built over the elements 11 and 12 and the text 13, after element 11
  has collapsed and after element 12 has collapsed too.
\<close>

definition after_first_collapse :: flying_carpet where
  "after_first_collapse =
     snd (collapsedCallback Fulfilled 11 (built (example_host [11, 13, 12]) 10 example_dom))"

definition after_second_collapse :: flying_carpet where
  "after_second_collapse = snd (collapsedCallback Fulfilled 12 after_first_collapse)"

section \<open>Properties\<close>

lemmas example_defs = example_dom_def example_host_def example_measurements_def element_node_def
  text_node_def comment_node_def js_def is_white_space_def

lemmas number_defs = Number_def StringToNumber_def StrDecimalLiteral_def
  StrUnsignedDecimalLiteral_def times_power_of_ten_def ExponentPart_opt_def SignedInteger_def
  NonDecimalIntegerLiteral_def DecimalDigits_def digit_in_radix_def is_digit_def
  signed_infinity_def signed_zero_def

subsection \<open>The visible-children filter\<close>

lemma visibileChildren_filter:
  "visibileChildren h ns = filter (retained_by_spec h) ns"
  unfolding visibileChildren_def retained_by_spec_def is_element_def is_nonblank_text_def
    regexp_S_test_def
  by (rule filter_cong) (auto simp: list_ex_iff)

lemma count_list_filter_kept: "P r \<Longrightarrow> count_list (filter P xs) r = count_list xs r"
  by (induction xs) auto

text \<open>
  C2. For every list of child nodes, the visible-children filter keeps exactly the element
  nodes and the text nodes that contain a non-whitespace character, drops every other node,
  and keeps the retained nodes in their original order (each as often as it occurred).
\<close>

theorem visibileChildren_exact:
  "visibileChildren h ns = filter (retained_by_spec h) ns
   \<and> subseq (visibileChildren h ns) ns
   \<and> (\<forall>r. r \<in> set (visibileChildren h ns) \<longleftrightarrow> r \<in> set ns \<and> retained_by_spec h r)
   \<and> (\<forall>r. retained_by_spec h r \<longrightarrow>
          count_list (visibileChildren h ns) r = count_list ns r)"
proof -
  have eq: "visibileChildren h ns = filter (retained_by_spec h) ns"
    by (rule visibileChildren_filter)
  have order: "subseq (visibileChildren h ns) ns"
    unfolding eq by (rule subseq_filter_left)
  have members: "r \<in> set (visibileChildren h ns) \<longleftrightarrow> r \<in> set ns \<and> retained_by_spec h r"
    for r
    unfolding eq by simp
  have often: "count_list (visibileChildren h ns) r = count_list ns r"
    if "retained_by_spec h r" for r
    unfolding eq using that by (rule count_list_filter_kept)
  from eq order members often show ?thesis by blast
qed

theorem visibileChildren_exact_witness:
  "retained_by_spec example_dom 11 \<and> retained_by_spec example_dom 13
   \<and> \<not> retained_by_spec example_dom 14 \<and> \<not> retained_by_spec example_dom 15
   \<and> visibileChildren example_dom [14, 11, 15, 13, 14, 12] = [11, 13, 12]
   \<and> count_list (visibileChildren example_dom [14, 11, 15, 13, 14, 12]) 13 = 1"
  using visibileChildren_exact [of example_dom "[14, 11, 15, 13, 14, 12]"]
  by (simp add: retained_by_spec_def is_element_def is_nonblank_text_def example_defs)

subsection \<open>What build leaves behind\<close>

lemma built_children: "children (built host el h) = getRealChildren h (getRealChildNodes host)"
  by (simp add: built_def buildCallback_def constructor_def call_def Let_def split: sum.splits)

lemma built_totalChildren: "totalChildren (built host el h) = int (length (visibileChildren h (getRealChildNodes host)))"
  by (simp add: built_def buildCallback_def constructor_def call_def Let_def split: sum.splits)


lemma built_calls: "AttemptCollapse \<notin> set (calls (built host el h))"
  by (auto simp add: built_def buildCallback_def constructor_def call_def Let_def split: sum.splits)

lemma built_example_1_4:
  "children (built (example_host [11, 14]) 10 example_dom) = [11]
   \<and> totalChildren (built (example_host [11, 14]) 10 example_dom) = 1"
  by (simp add: built_children built_totalChildren getRealChildren_def visibileChildren_def regexp_S_test_def example_defs)

lemma built_example_3:
  "children (built (example_host [11, 13, 12]) 10 example_dom) = [11, 12]
   \<and> totalChildren (built (example_host [11, 13, 12]) 10 example_dom) = 3"
  by (simp add: built_children built_totalChildren getRealChildren_def visibileChildren_def regexp_S_test_def example_defs)

lemma built_example_2:
  "children (built (example_host [11, 12]) 10 example_dom) = [11, 12]"
  by (simp add: built_children getRealChildren_def example_defs)

lemma built_scaleContent:
  "scaleContent (built host el h) \<longleftrightarrow>
     attributes (h el) ''scale-content'' \<noteq> None
     \<and> (\<exists>c. getRealChildren h (getRealChildNodes host) = [c] \<and> layout (h c) = Some Layout_FIXED)"
  by (auto simp: built_def buildCallback_def constructor_def call_def Let_def hasAttribute_def
      assertScalable_def length_Suc_conv split: sum.splits if_splits)

lemma built_warn:
  "ConsoleWarn \<in> set (calls (built host el h)) \<longleftrightarrow>
     attributes (h el) ''scale-content'' \<noteq> None
     \<and> \<not> (\<exists>c. getRealChildren h (getRealChildNodes host) = [c] \<and> layout (h c) = Some Layout_FIXED)"
  by (auto simp: built_def buildCallback_def constructor_def call_def Let_def hasAttribute_def
      assertScalable_def length_Suc_conv split: sum.splits if_splits)


lemma example_getters:
  "getWidth example_measurements = 800" "getHeight example_measurements = 600"
  by (simp_all add: example_measurements_def)

subsection \<open>The position check of layout\<close>



subsection \<open>Scaling is decided at build\<close>

text \<open>
  C5. After build, scaling is enabled exactly when the component's element carries the
  attribute \<^verbatim>\<open>scale-content\<close>, there is exactly one tracked child, and the layout of that
  child is FIXED. In the remaining cases with the attribute present a warning is logged;
  in every case build runs to its last statement and collapses nothing.
\<close>

theorem buildCallback_scaling:
  "(scaleContent (built host el h) \<longleftrightarrow>
      attributes (h el) ''scale-content'' \<noteq> None
      \<and> (\<exists>c. children (built host el h) = [c] \<and> layout (h c) = Some Layout_FIXED))
   \<and> (ConsoleWarn \<in> set (calls (built host el h)) \<longleftrightarrow>
      attributes (h el) ''scale-content'' \<noteq> None
      \<and> \<not> (\<exists>c. children (built host el h) = [c] \<and> layout (h c) = Some Layout_FIXED))
   \<and> last (calls (built host el h)) = AddToFixedLayer (created_container host) False
   \<and> Collapse \<notin> set (calls (built host el h))"
proof -
  have "last (calls (built host el h)) = AddToFixedLayer (created_container host) False"
    by (simp add: built_def buildCallback_def constructor_def call_def Let_def)
  moreover have "Collapse \<notin> set (calls (built host el h))"
    by (auto simp: built_def buildCallback_def constructor_def call_def Let_def
        split: sum.splits)
  ultimately show ?thesis
    using built_scaleContent [of host el h] built_warn [of host el h]
    by (simp add: built_children)
qed

theorem buildCallback_scaling_witness:
  "scaleContent (built (example_host [11, 14]) 10 example_dom)
   \<and> \<not> scaleContent (built (example_host [11, 12]) 10 example_dom)
   \<and> ConsoleWarn \<in> set (calls (built (example_host [11, 12]) 10 example_dom))
   \<and> \<not> scaleContent (built (example_host [12, 14]) 10 example_dom)
   \<and> ConsoleWarn \<in> set (calls (built (example_host [12, 14]) 10 example_dom))
   \<and> \<not> scaleContent (built (example_host [11, 14]) 12 example_dom)
   \<and> ConsoleWarn \<notin> set (calls (built (example_host [11, 14]) 12 example_dom))"
proof -
  have a: "attributes (example_dom 10) ''scale-content'' \<noteq> None"
    "attributes (example_dom 12) ''scale-content'' = None"
    "layout (example_dom 11) = Some Layout_FIXED"
    "layout (example_dom 12) \<noteq> Some Layout_FIXED"
    by (simp_all add: example_defs Layout_FIXED_def)
  have c: "children (built (example_host [12, 14]) 10 example_dom) = [12]"
    by (simp add: built_children getRealChildren_def example_defs)
  from buildCallback_scaling [of "example_host [11, 14]" 10 example_dom]
    buildCallback_scaling [of "example_host [11, 12]" 10 example_dom]
    buildCallback_scaling [of "example_host [12, 14]" 10 example_dom]
    buildCallback_scaling [of "example_host [11, 14]" 12 example_dom] a
  show ?thesis by (simp add: built_example_1_4 built_example_2 c)
qed

subsection \<open>The collapse of a child\<close>

lemma indexOf_found: "indexOf xs x > -1 \<longleftrightarrow> x \<in> set xs"
  by (induction xs) (auto simp: Let_def)

lemma indexOf_nonneg: "x \<in> set xs \<Longrightarrow> 0 \<le> indexOf xs x"
  by (induction xs) (auto simp: Let_def)

lemma splice1_indexOf: "x \<in> set xs \<Longrightarrow> splice1 xs (indexOf xs x) = remove1 x xs"
proof (induction xs)
  case Nil
  then show ?case by simp
next
  case (Cons y ys)
  show ?case
  proof (cases "y = x")
    case True
    then show ?thesis by (simp add: splice1_def)
  next
    case False
    with Cons.prems have mem: "x \<in> set ys" by simp
    then have "0 \<le> indexOf ys x" by (rule indexOf_nonneg)
    then have "nat (indexOf ys x + 1) = Suc (nat (indexOf ys x))" by simp
    with False mem Cons.IH show ?thesis
      by (simp add: splice1_def Let_def indexOf_found)
  qed
qed

lemma collapsedCallback_tracked:
  assumes "child \<in> set (children s)"
  shows "collapsedCallback attempt child s =
     (if totalChildren s - 1 = 0 then Promise Fulfilled else Undefined,
      s\<lparr>children := remove1 child (children s), totalChildren := totalChildren s - 1,
        calls := calls s @ (if totalChildren s - 1 = 0 then [AttemptCollapse] else [])\<rparr>)"
  using assms
  by (cases attempt) (simp_all add: collapsedCallback_def Let_def indexOf_found splice1_indexOf call_def)

lemma collapsedCallback_untracked:
  assumes "child \<notin> set (children s)"
  shows "collapsedCallback attempt child s = (Undefined, s)"
  using assms by (simp add: collapsedCallback_def Let_def indexOf_found)

text \<open>
  C3. When the child-collapse callback is invoked with a child that is tracked, it
  removes that child from the tracked children, lowers the counter by one, and asks the
  host to collapse the component exactly when the lowered counter is zero; the promise it
  then returns is fulfilled whatever becomes of the host's attempt, so a failed attempt
  is not passed on. Nothing else of the state changes.
\<close>

theorem collapsedCallback_removes_and_counts:
  assumes "child \<in> set (children s)"
  shows "children (snd (collapsedCallback attempt child s)) = remove1 child (children s)
     \<and> (distinct (children s) \<longrightarrow> child \<notin> set (children (snd (collapsedCallback attempt child s))))
     \<and> totalChildren (snd (collapsedCallback attempt child s)) = totalChildren s - 1
     \<and> calls (snd (collapsedCallback attempt child s)) =
         calls s @ (if totalChildren s - 1 = 0 then [AttemptCollapse] else [])
     \<and> fst (collapsedCallback attempt child s) =
         (if totalChildren s - 1 = 0 then Promise Fulfilled else Undefined)
     \<and> fst (collapsedCallback attempt child s) \<noteq> Promise Rejected
     \<and> nodes (snd (collapsedCallback attempt child s)) = nodes s
     \<and> scaleContent (snd (collapsedCallback attempt child s)) = scaleContent s
     \<and> firstLayoutCompleted (snd (collapsedCallback attempt child s)) = firstLayoutCompleted s
     \<and> container (snd (collapsedCallback attempt child s)) = container s
     \<and> element (snd (collapsedCallback attempt child s)) = element s"
proof -
  let ?zero = "totalChildren s - 1 = 0"
  have result: "collapsedCallback attempt child s =
     (if ?zero then Promise Fulfilled else Undefined,
      s\<lparr>children := remove1 child (children s), totalChildren := totalChildren s - 1,
        calls := calls s @ (if ?zero then [AttemptCollapse] else [])\<rparr>)"
    using assms by (rule collapsedCallback_tracked)
  have gone: "child \<notin> set (remove1 child (children s))" if "distinct (children s)"
    using that by simp
  have swallowed: "(if ?zero then Promise Fulfilled else Undefined) \<noteq> Promise Rejected"
    by simp
  from gone swallowed show ?thesis
    unfolding result by simp
qed

theorem collapsedCallback_removes_and_counts_witness:
  "11 \<in> set (children (built (example_host [11, 14]) 10 example_dom))
   \<and> distinct (children (built (example_host [11, 14]) 10 example_dom))
   \<and> 11 \<notin> set (children (snd (collapsedCallback Rejected 11 (built (example_host [11, 14]) 10 example_dom))))
   \<and> children (snd (collapsedCallback Rejected 11 (built (example_host [11, 14]) 10 example_dom))) = []
   \<and> totalChildren (snd (collapsedCallback Rejected 11 (built (example_host [11, 14]) 10 example_dom))) = 0
   \<and> fst (collapsedCallback Rejected 11 (built (example_host [11, 14]) 10 example_dom)) = Promise Fulfilled
   \<and> calls (snd (collapsedCallback Rejected 11 (built (example_host [11, 14]) 10 example_dom))) =
         calls (built (example_host [11, 14]) 10 example_dom) @ [AttemptCollapse]"
proof -
  have m: "11 \<in> set (children (built (example_host [11, 14]) 10 example_dom))"
    by (simp add: built_example_1_4)
  from collapsedCallback_removes_and_counts [OF m, of Rejected] m
  show ?thesis by (simp add: built_example_1_4)
qed

subsection \<open>What every callback preserves\<close>

lemma length_remove1_int: "x \<in> set xs \<Longrightarrow> int (length (remove1 x xs)) = int (length xs) - 1"
proof -
  assume "x \<in> set xs"
  then have "0 < length xs" by (rule length_pos_if_in_set)
  with \<open>x \<in> set xs\<close> show ?thesis by (simp add: length_remove1 Suc_leI)
qed

lemma applyScaleTransform_fields:
  "children (snd (applyScaleTransform m c s)) = children s
   \<and> totalChildren (snd (applyScaleTransform m c s)) = totalChildren s
   \<and> scaleContent (snd (applyScaleTransform m c s)) = scaleContent s
   \<and> filter (\<lambda>c. c = AttemptCollapse) (calls (snd (applyScaleTransform m c s))) = filter (\<lambda>c. c = AttemptCollapse) (calls s)"
  by (simp add: applyScaleTransform_def call_def Let_def split: option.splits)

lemma step_other:
  assumes "\<not> (\<exists>a c. cb = CollapsedCallback a c \<and> c \<in> set (children s))"
  shows "children (step s cb) = children s \<and> totalChildren (step s cb) = totalChildren s
    \<and> scaleContent (step s cb) = scaleContent s
    \<and> filter (\<lambda>c. c = AttemptCollapse) (calls (step s cb)) = filter (\<lambda>c. c = AttemptCollapse) (calls s)"
proof (cases cb)
  case (OnMeasureChanged m)
  then show ?thesis
    by (simp add: onMeasureChanged_def Let_def applyScaleTransform_fields call_def)
next
  case (ViewportCallback v)
  then show ?thesis by (simp add: viewportCallback_def call_def)
next
  case (LayoutCallback m)
  then show ?thesis by (simp add: layoutCallback_def call_def Let_def split: sum.splits)
next
  case (LayoutBuiltChild m t ow)
  then show ?thesis
    by (simp add: layoutBuiltChild_def Let_def applyScaleTransform_fields call_def)
next
  case (CollapsedCallback a c)
  with assms have "c \<notin> set (children s)" by simp
  with CollapsedCallback show ?thesis by (simp add: collapsedCallback_untracked)
qed

lemma step_collapse:
  assumes "c \<in> set (children s)"
  shows "children (step s (CollapsedCallback a c)) = remove1 c (children s)
    \<and> totalChildren (step s (CollapsedCallback a c)) = totalChildren s - 1
    \<and> scaleContent (step s (CollapsedCallback a c)) = scaleContent s
    \<and> calls (step s (CollapsedCallback a c)) = calls s @ (if totalChildren s - 1 = 0 then [AttemptCollapse] else [])"
  by (simp add: collapsedCallback_tracked [OF assms])

lemma step_hidden_text: "hidden_text (step s cb) = hidden_text s"
proof (cases "\<exists>a c. cb = CollapsedCallback a c \<and> c \<in> set (children s)")
  case True
  then obtain a c where "cb = CollapsedCallback a c" "c \<in> set (children s)" by blast
  then show ?thesis
    using step_collapse [of c s a] by (simp add: hidden_text_def length_remove1_int)
next
  case False
  then show ?thesis using step_other [of cb s] by (simp add: hidden_text_def)
qed

lemma run_snoc: "run s (cbs @ [cb]) = step (run s cbs) cb"
  by (simp add: run_def)

lemma run_append: "run s (cbs @ cbs') = run (run s cbs) cbs'"
  by (simp add: run_def)

lemma run_hidden_text: "hidden_text (run s cbs) = hidden_text s"
  by (induction cbs rule: rev_induct) (simp_all add: run_snoc step_hidden_text, simp add: run_def)

lemma step_totalChildren_le: "totalChildren (step s cb) \<le> totalChildren s"
  by (cases "\<exists>a c. cb = CollapsedCallback a c \<and> c \<in> set (children s)")
     (use step_collapse step_other [of cb s] in auto)

lemma run_totalChildren_le: "totalChildren (run s cbs) \<le> totalChildren s"
proof (induction cbs rule: rev_induct)
  case Nil
  then show ?case by (simp add: run_def)
next
  case (snoc cb cbs)
  then show ?case
    using step_totalChildren_le [of "run s cbs" cb] by (simp add: run_snoc)
qed

lemma length_filter_disj:
  "length (filter (\<lambda>x. P x \<or> Q x) xs) = length (filter P xs) + length (filter (\<lambda>x. \<not> P x \<and> Q x) xs)"
  by (induction xs) auto

lemma built_hidden_text:
  "hidden_text (built host el h) = int (length (filter (is_nonblank_text h) (getRealChildNodes host)))"
proof -
  have "\<And>r. (\<not> is_element h r \<and> is_nonblank_text h r) = is_nonblank_text h r"
    by (auto simp: is_element_def is_nonblank_text_def)
  then show ?thesis
  unfolding hidden_text_def built_children built_totalChildren visibileChildren_filter getRealChildren_def
  retained_by_spec_def
  by (simp add: length_filter_disj is_element_def[abs_def])
qed

lemma step_children_subset: "set (children (step s cb)) \<subseteq> set (children s)"
proof (cases "\<exists>a c. cb = CollapsedCallback a c \<and> c \<in> set (children s)")
  case True
  then obtain a c where "cb = CollapsedCallback a c" "c \<in> set (children s)" by blast
  then show ?thesis using step_collapse [of c s a] set_remove1_subset [of c "children s"] by simp
next
  case False
  then show ?thesis using step_other [of cb s] by simp
qed

lemma run_children_subset: "set (children (run s cbs)) \<subseteq> set (children s)"
proof (induction cbs rule: rev_induct)
  case Nil
  then show ?case by (simp add: run_def)
next
  case (snoc cb cbs)
  then show ?case using step_children_subset [of "run s cbs" cb] by (auto simp: run_snoc)
qed

lemma step_distinct: "distinct (children s) \<Longrightarrow> distinct (children (step s cb))"
proof (cases "\<exists>a c. cb = CollapsedCallback a c \<and> c \<in> set (children s)")
  case True
  assume d: "distinct (children s)"
  from True obtain a c where "cb = CollapsedCallback a c" "c \<in> set (children s)" by blast
  then show ?thesis using step_collapse [of c s a] d by simp
next
  case False
  assume d: "distinct (children s)"
  then show ?thesis using step_other [of cb s] False by simp
qed

lemma run_distinct: "distinct (children s) \<Longrightarrow> distinct (children (run s cbs))"
  by (induction cbs rule: rev_induct) (simp_all add: run_snoc step_distinct, simp add: run_def)

lemma built_distinct: "distinct (getRealChildNodes host) \<Longrightarrow> distinct (children (built host el h))"
  by (simp add: built_children getRealChildren_def)

lemma collapsed_twice:
  assumes "distinct (children s)"
  shows "c \<notin> set (children (snd (collapsedCallback a c s)))"
proof (cases "c \<in> set (children s)")
  case True
  then show ?thesis using assms by (simp add: collapsedCallback_tracked)
next
  case False
  then show ?thesis by (simp add: collapsedCallback_untracked)
qed

lemma run_totalChildren_ge: "int (length (children (run s cbs))) + hidden_text s = totalChildren (run s cbs)"
  using run_hidden_text [of s cbs] by (simp add: hidden_text_def)

lemma step_requests:
  "collapse_requests (step s cb) =
     collapse_requests s + (if totalChildren (step s cb) = 0 \<and> totalChildren s \<noteq> 0 then 1 else 0)"
proof (cases "\<exists>a c. cb = CollapsedCallback a c \<and> c \<in> set (children s)")
  case True
  then obtain a c where "cb = CollapsedCallback a c" "c \<in> set (children s)" by blast
  then show ?thesis using step_collapse [of c s a] by (simp add: collapse_requests_def)
next
  case False
  then show ?thesis using step_other [of cb s] by (simp add: collapse_requests_def)
qed

lemma run_no_requests:
  assumes "0 < hidden_text s"
  shows "collapse_requests (run s cbs) = collapse_requests s"
proof (induction cbs rule: rev_induct)
  case Nil
  then show ?case by (simp add: run_def)
next
  case (snoc cb cbs)
  have "0 < totalChildren (run s (cbs @ [cb]))"
    using run_totalChildren_ge [of s "cbs @ [cb]"] assms by linarith
  then show ?case using snoc step_requests [of "run s cbs" cb] by (simp add: run_snoc)
qed

lemma built_no_requests: "collapse_requests (built host el h) = 0"
  using built_calls [of host el h] by (auto simp: collapse_requests_def filter_empty_conv)

text \<open>
  C7. Once the child-collapse callback has been invoked with a child, invoking it again
  with the same child, at once or after any further callbacks, changes neither the tracked
  children nor the counter and makes no call to the host. The child nodes that the host
  hands to build are distinct, as the children of a DOM node are.
\<close>

theorem collapsedCallback_idempotent:
  assumes "distinct (getRealChildNodes host)"
    and "s = run (built host el h) before"
    and "s1 = snd (collapsedCallback first c s)"
    and "s2 = run s1 between"
  shows "collapsedCallback again c s2 = (Undefined, s2)
     \<and> children (snd (collapsedCallback again c s2)) = children s2
     \<and> totalChildren (snd (collapsedCallback again c s2)) = totalChildren s2
     \<and> calls (snd (collapsedCallback again c s2)) = calls s2"
proof -
  have "distinct (children s)"
    using assms(1,2) by (simp add: run_distinct built_distinct)
  then have "c \<notin> set (children s1)"
    using assms(3) by (simp add: collapsed_twice)
  then have "c \<notin> set (children s2)"
    using run_children_subset [of s1 between] assms(4) by auto
  then show ?thesis by (simp add: collapsedCallback_untracked)
qed

lemma example_distinct: "distinct (getRealChildNodes (example_host [11, 14]))"
  by (simp add: example_host_def)

theorem collapsedCallback_idempotent_witness:
  "distinct (getRealChildNodes (example_host [11, 14]))
   \<and> collapsedCallback Rejected 11
        (run (snd (collapsedCallback Fulfilled 11 (run (built (example_host [11, 14]) 10 example_dom) [])))
           [ViewportCallback True])
     = (Undefined,
        run (snd (collapsedCallback Fulfilled 11 (run (built (example_host [11, 14]) 10 example_dom) [])))
           [ViewportCallback True])"
  using collapsedCallback_idempotent [where host = "example_host [11, 14]" and el = 10
      and h = example_dom and before = "[]" and first = Fulfilled and c = 11
      and between = "[ViewportCallback True]" and again = Rejected,
      OF example_distinct refl refl refl]
  by (simp add: example_distinct)

text \<open>
  C8. Build sets the counter to the number of element children plus the number of
  non-blank text children. After that every callback either leaves the counter as it is
  or lowers it by one, the latter only when it is the collapse of a child that is tracked;
  so the counter never rises along a sequence of callbacks, and it is never negative.
\<close>

theorem totalChildren_only_decrements:
  "totalChildren (built host el h) =
     int (length (filter (is_element h) (getRealChildNodes host))
          + length (filter (is_nonblank_text h) (getRealChildNodes host)))
   \<and> (totalChildren (step (run (built host el h) cbs) cb) = totalChildren (run (built host el h) cbs)
      \<or> (totalChildren (step (run (built host el h) cbs) cb) = totalChildren (run (built host el h) cbs) - 1
         \<and> (\<exists>a c. cb = CollapsedCallback a c \<and> c \<in> set (children (run (built host el h) cbs)))))
   \<and> totalChildren (run (built host el h) (cbs @ later)) \<le> totalChildren (run (built host el h) cbs)
   \<and> 0 \<le> totalChildren (run (built host el h) cbs)"
proof -
  let ?s = "run (built host el h) cbs"
  have init: "totalChildren (built host el h) =
     int (length (filter (is_element h) (getRealChildNodes host))
          + length (filter (is_nonblank_text h) (getRealChildNodes host)))"
    using built_hidden_text [of host el h]
    by (simp add: hidden_text_def built_children getRealChildren_def is_element_def [abs_def])
  have one: "totalChildren (step ?s cb) = totalChildren ?s
      \<or> (totalChildren (step ?s cb) = totalChildren ?s - 1
         \<and> (\<exists>a c. cb = CollapsedCallback a c \<and> c \<in> set (children ?s)))"
  proof (cases "\<exists>a c. cb = CollapsedCallback a c \<and> c \<in> set (children ?s)")
    case True
    then obtain a c where "cb = CollapsedCallback a c" "c \<in> set (children ?s)" by blast
    then show ?thesis using step_collapse [of c ?s a] by simp
  next
    case False
    then show ?thesis using step_other [of cb ?s] by simp
  qed
  have mono: "totalChildren (run (built host el h) (cbs @ later)) \<le> totalChildren ?s"
    by (simp add: run_append run_totalChildren_le)
  have "0 \<le> hidden_text (built host el h)"
    by (simp add: built_hidden_text)
  then have nonneg: "0 \<le> totalChildren ?s"
    using run_totalChildren_ge [of "built host el h" cbs] by linarith
  from init one mono nonneg show ?thesis by blast
qed

lemma example_3_run:
  "totalChildren (run (built (example_host [11, 13, 12]) 10 example_dom)
      [CollapsedCallback Fulfilled 11, CollapsedCallback Fulfilled 12]) = 1"
proof -
  let ?s0 = "built (example_host [11, 13, 12]) 10 example_dom"
  let ?s1 = "snd (collapsedCallback Fulfilled 11 ?s0)"
  have m1: "11 \<in> set (children ?s0)" by (simp add: built_example_3)
  have a: "children ?s1 = [12]" "totalChildren ?s1 = 2"
    by (simp_all add: collapsedCallback_tracked [OF m1] built_example_3)
  have m2: "12 \<in> set (children ?s1)" by (simp add: a)
  show ?thesis by (simp add: run_def collapsedCallback_tracked [OF m2] a)
qed

theorem totalChildren_only_decrements_witness:
  "totalChildren (built (example_host [11, 13, 12]) 10 example_dom) = 3
   \<and> totalChildren (run (built (example_host [11, 13, 12]) 10 example_dom)
        ([CollapsedCallback Fulfilled 11] @ [CollapsedCallback Fulfilled 12])) = 1
   \<and> totalChildren (run (built (example_host [11, 13, 12]) 10 example_dom)
        ([CollapsedCallback Fulfilled 11] @ [CollapsedCallback Fulfilled 12]))
      \<le> totalChildren (run (built (example_host [11, 13, 12]) 10 example_dom)
        [CollapsedCallback Fulfilled 11])"
  using totalChildren_only_decrements [of "example_host [11, 13, 12]" 10 example_dom
      "[CollapsedCallback Fulfilled 11]" "CollapsedCallback Fulfilled 12"
      "[CollapsedCallback Fulfilled 12]"] example_3_run
  by (simp add: built_example_3)

text \<open>
  C9. After build and after every sequence of callbacks the counter is at least the number
  of tracked children. If a non-blank text node was among the child nodes at build, the
  counter stays above zero and the component never asks the host to collapse it.
\<close>

theorem totalChildren_bounds_children:
  "int (length (children (run (built host el h) cbs))) \<le> totalChildren (run (built host el h) cbs)
   \<and> ((\<exists>t \<in> set (getRealChildNodes host). is_nonblank_text h t) \<longrightarrow>
        0 < totalChildren (run (built host el h) cbs)
        \<and> collapse_requests (run (built host el h) cbs) = 0
        \<and> AttemptCollapse \<notin> set (calls (run (built host el h) cbs)))"
proof -
  let ?s0 = "built host el h"
  have inv: "int (length (children (run ?s0 cbs))) + hidden_text ?s0 = totalChildren (run ?s0 cbs)"
    by (rule run_totalChildren_ge)
  have h0: "0 \<le> hidden_text ?s0" by (simp add: built_hidden_text)
  have first: "int (length (children (run ?s0 cbs))) \<le> totalChildren (run ?s0 cbs)"
    using inv h0 by linarith
  have second: "0 < totalChildren (run ?s0 cbs) \<and> collapse_requests (run ?s0 cbs) = 0
        \<and> AttemptCollapse \<notin> set (calls (run ?s0 cbs))"
    if "\<exists>t \<in> set (getRealChildNodes host). is_nonblank_text h t"
  proof -
    from that have "filter (is_nonblank_text h) (getRealChildNodes host) \<noteq> []"
      by (simp add: filter_empty_conv)
    then have pos: "0 < hidden_text ?s0" by (simp add: built_hidden_text)
    then have "0 < totalChildren (run ?s0 cbs)" using inv by linarith
    moreover have r: "collapse_requests (run ?s0 cbs) = 0"
      using run_no_requests [OF pos, of cbs] by (simp add: built_no_requests)
    moreover have "AttemptCollapse \<notin> set (calls (run ?s0 cbs))"
      using r by (auto simp: collapse_requests_def filter_empty_conv)
    ultimately show ?thesis by simp
  qed
  from first second show ?thesis by blast
qed

lemma example_3_facts:
  "set (getRealChildNodes (example_host [11, 13, 12])) = {11, 12, 13}
   \<and> length (getRealChildNodes (example_host [11, 13, 12])) = 3
   \<and> is_element example_dom 11 \<and> is_element example_dom 12 \<and> is_nonblank_text example_dom 13"
  by (auto simp: is_element_def is_nonblank_text_def example_defs)

theorem totalChildren_bounds_children_witness:
  "(\<exists>t \<in> set (getRealChildNodes (example_host [11, 13, 12])). is_nonblank_text example_dom t)
   \<and> 0 < totalChildren (run (built (example_host [11, 13, 12]) 10 example_dom)
        [CollapsedCallback Fulfilled 11, CollapsedCallback Fulfilled 12])
   \<and> collapse_requests (run (built (example_host [11, 13, 12]) 10 example_dom)
        [CollapsedCallback Fulfilled 11, CollapsedCallback Fulfilled 12]) = 0"
proof -
  have t: "\<exists>t \<in> set (getRealChildNodes (example_host [11, 13, 12])). is_nonblank_text example_dom t"
    using example_3_facts by (simp add: example_host_def)
  with totalChildren_bounds_children [of "example_host [11, 13, 12]" 10 example_dom
      "[CollapsedCallback Fulfilled 11, CollapsedCallback Fulfilled 12]"]
  show ?thesis by blast
qed

text \<open>
  C4. For a component built over three real child nodes, two elements and one non-blank
  text, the counter starts at 3; when the two elements collapse in turn it drops to 2 and
  then to 1. It does not reach 0, since the text is counted and never collapses, and the
  component does not ask the host to collapse it.
\<close>

theorem two_elements_and_a_text:
  assumes "set (getRealChildNodes host) = {c1, c2, t}" and "length (getRealChildNodes host) = 3"
    and "c1 \<noteq> c2"
    and "is_element h c1" and "is_element h c2" and "is_nonblank_text h t"
    and "s0 = built host el h"
    and "s1 = snd (collapsedCallback a1 c1 s0)"
    and "s2 = snd (collapsedCallback a2 c2 s1)"
  shows "totalChildren s0 = 3 \<and> totalChildren s1 = 2 \<and> totalChildren s2 = 1
     \<and> collapse_requests s2 = 0"
proof -
  let ?ns = "getRealChildNodes host"
  have "\<forall>r \<in> set ?ns. retained_by_spec h r"
    using assms(1,4,5,6) by (auto simp: retained_by_spec_def)
  then have "filter (retained_by_spec h) ?ns = ?ns" by (simp add: filter_id_conv)
  then have t0: "totalChildren s0 = 3"
    using assms(2,7) by (simp add: built_totalChildren visibileChildren_filter)
  have ch: "set (children s0) = {r \<in> set ?ns. is_element h r}"
    using assms(7) by (auto simp: built_children getRealChildren_def is_element_def)
  have m1: "c1 \<in> set (children s0)" using ch assms(1,4) by simp
  have m2: "c2 \<in> set (children s0)" using ch assms(1,5) by simp
  have s1: "s1 = s0\<lparr>children := remove1 c1 (children s0), totalChildren := 2, calls := calls s0\<rparr>"
    using assms(8) t0 by (simp add: collapsedCallback_tracked [OF m1])
  then have m2': "c2 \<in> set (children s1)" using m2 assms(3) by simp
  have t1: "totalChildren s1 = 2" using s1 by simp
  have s2: "s2 = s1\<lparr>children := remove1 c2 (children s1), totalChildren := 1, calls := calls s1\<rparr>"
    using assms(9) t1 by (simp add: collapsedCallback_tracked [OF m2'])
  have "collapse_requests s2 = collapse_requests s0"
    using s1 s2 by (simp add: collapse_requests_def)
  then have "collapse_requests s2 = 0" using assms(7) by (simp add: built_no_requests)
  with t0 t1 s2 show ?thesis by simp
qed

theorem two_elements_and_a_text_witness:
  "set (getRealChildNodes (example_host [11, 13, 12])) = {11, 12, 13}
   \<and> length (getRealChildNodes (example_host [11, 13, 12])) = 3
   \<and> is_element example_dom 11 \<and> is_element example_dom 12 \<and> is_nonblank_text example_dom 13
   \<and> totalChildren (built (example_host [11, 13, 12]) 10 example_dom) = 3
   \<and> totalChildren after_first_collapse = 2
   \<and> totalChildren after_second_collapse = 1
   \<and> collapse_requests after_second_collapse = 0"
  using example_3_facts
    two_elements_and_a_text [of "example_host [11, 13, 12]" 11 12 13 example_dom
      "built (example_host [11, 13, 12]) 10 example_dom" 10 after_first_collapse Fulfilled
      after_second_collapse Fulfilled]
  by (simp add: after_first_collapse_def after_second_collapse_def)

text \<open>
  In the example document the counter is 2 after the first collapse and 1 after the
  second, not 1 and 0, and no collapse of the component is requested.
\<close>

theorem count_reaches_zero_counterexample:
  "totalChildren (built (example_host [11, 13, 12]) 10 example_dom) = 3
   \<and> totalChildren after_first_collapse \<noteq> 1
   \<and> totalChildren after_second_collapse \<noteq> 0
   \<and> collapse_requests after_second_collapse \<noteq> 1"
proof -
  let ?s0 = "built (example_host [11, 13, 12]) 10 example_dom"
  have m1: "11 \<in> set (children ?s0)"
    by (simp add: built_example_3)
  have a: "children after_first_collapse = [12]" "totalChildren after_first_collapse = 2"
    "calls after_first_collapse = calls ?s0"
    by (simp_all add: after_first_collapse_def collapsedCallback_tracked [OF m1] built_example_3)
  have m2: "12 \<in> set (children after_first_collapse)" by (simp add: a)
  have b: "totalChildren after_second_collapse = 1"
    "calls after_second_collapse = calls ?s0"
    by (simp_all add: after_second_collapse_def collapsedCallback_tracked [OF m2] a)
  have "collapse_requests after_second_collapse = 0"
    using built_no_requests [of "example_host [11, 13, 12]" 10 example_dom]
    by (simp add: b collapse_requests_def)
  then show ?thesis by (simp add: built_example_3 a b)
qed

subsection \<open>The scale transform\<close>


lemma js_div_positive: "0 < w \<Longrightarrow> js_div (Fin W) (Fin w) = Fin (W / w)"
  by (simp add: js_div_def signed_zero_def)

lemma Math_min_Fin: "Math_min (Fin a) (Fin b) = Fin (min a b)"
  by (simp add: Math_min_def min_def)

lemma scaleCoefficient_positive:
  assumes "Number (attributes child ''width'') = Fin w" and "Number (attributes child ''height'') = Fin h"
    and "0 < w" and "0 < h"
  shows "scaleCoefficient m child = Fin (min (getWidth m / w) (getHeight m / h))"
  using assms by (simp add: scaleCoefficient_def js_div_positive Math_min_Fin)



lemma Number_examples:
  "Number (attributes (example_dom 11) ''width'') = Fin 400"
  "Number (attributes (example_dom 11) ''height'') = Fin 300"
  "Number (attributes (example_dom 16) ''width'') = Fin 0"
  "Number (attributes (example_dom 16) ''height'') = Fin 300"
  "Number (attributes (example_dom 12) ''width'') = Fin 0"
  "Number (attributes (example_dom 12) ''height'') = Fin 0"
  "Number (attributes (example_dom 17) ''width'') = NaN"
  by (simp_all add: example_defs number_defs)



lemma js_div_by_zero: "is_zero d \<Longrightarrow> \<not> is_finite (js_div (Fin n) d)"
  by (cases d) (auto simp: js_div_def signed_infinity_def)

lemma Math_min_not_finite:
  "\<not> is_finite a \<Longrightarrow> \<not> is_finite b \<Longrightarrow> \<not> is_finite (Math_min a b)"
  by (cases a; cases b) (auto simp: Math_min_def)

lemma js_div_finite_positive:
  "is_finite_positive (js_div (Fin n) d) \<Longrightarrow> is_finite_nonzero d"
  by (cases d) (auto simp: js_div_def signed_infinity_def signed_zero_def split: if_splits)

lemma js_div_positive_or_infinite:
  assumes "is_finite_positive (Math_min a b)"
  shows "(is_finite_positive a \<and> (is_finite_positive b \<or> b = PInf))
       \<or> (is_finite_positive b \<and> a = PInf)"
  using assms by (cases a; cases b) (auto simp: Math_min_def split: if_splits)

lemma js_div_PInf: "js_div (Fin n) d = PInf \<Longrightarrow> is_zero d"
  by (cases d) (auto simp: js_div_def signed_infinity_def signed_zero_def split: if_splits)

lemma is_zero_finite: "is_zero d \<Longrightarrow> is_finite d"
  by (cases d) auto

lemma is_finite_nonzero_finite: "is_finite_nonzero d \<Longrightarrow> is_finite d"
  by (cases d) auto

text \<open>
  C10. The scale factor is \<^verbatim>\<open>Math.min\<close> of the two quotients of the viewport's width and
  height by the numbers that the child's \<^verbatim>\<open>width\<close> and \<^verbatim>\<open>height\<close> attributes convert
  to, with no guard. The factor is a finite positive number only if both attributes
  convert to finite numbers of which at least one is not zero. An attribute that is
  missing or "0" converts to zero and makes its own quotient an infinity or NaN; the
  factor itself is then not finite when both attributes are zero, and it is NaN when an
  attribute is not numeric.
\<close>

theorem scaleCoefficient_unguarded:
  "scaleCoefficient m child =
     Math_min (js_div (Fin (getWidth m)) (Number (attributes child ''width'')))
              (js_div (Fin (getHeight m)) (Number (attributes child ''height'')))
   \<and> (is_finite_positive (scaleCoefficient m child) \<longrightarrow>
        is_finite (Number (attributes child ''width''))
        \<and> is_finite (Number (attributes child ''height''))
        \<and> (is_finite_nonzero (Number (attributes child ''width''))
           \<or> is_finite_nonzero (Number (attributes child ''height''))))
   \<and> (is_zero (Number (attributes child ''width'')) \<longrightarrow>
        \<not> is_finite (js_div (Fin (getWidth m)) (Number (attributes child ''width''))))
   \<and> (is_zero (Number (attributes child ''height'')) \<longrightarrow>
        \<not> is_finite (js_div (Fin (getHeight m)) (Number (attributes child ''height''))))
   \<and> (is_zero (Number (attributes child ''width''))
      \<and> is_zero (Number (attributes child ''height'')) \<longrightarrow>
        \<not> is_finite (scaleCoefficient m child))
   \<and> (Number (attributes child ''width'') = NaN \<or> Number (attributes child ''height'') = NaN \<longrightarrow>
        scaleCoefficient m child = NaN)"
proof -
  let ?w = "Number (attributes child ''width'')" and ?h = "Number (attributes child ''height'')"
  let ?qw = "js_div (Fin (getWidth m)) ?w" and ?qh = "js_div (Fin (getHeight m)) ?h"
  have eq: "scaleCoefficient m child = Math_min ?qw ?qh"
    by (simp add: scaleCoefficient_def)
  have pos: "is_finite ?w \<and> is_finite ?h \<and> (is_finite_nonzero ?w \<or> is_finite_nonzero ?h)"
    if "is_finite_positive (scaleCoefficient m child)"
  proof -
    from that eq have "is_finite_positive (Math_min ?qw ?qh)" by simp
    then consider "is_finite_positive ?qw" "is_finite_positive ?qh"
      | "is_finite_positive ?qw" "?qh = PInf" | "is_finite_positive ?qh" "?qw = PInf"
      using js_div_positive_or_infinite by blast
    then show ?thesis
      by cases (auto dest: js_div_finite_positive js_div_PInf is_zero_finite
          is_finite_nonzero_finite)
  qed
  have zw: "\<not> is_finite ?qw" if "is_zero ?w" using that by (rule js_div_by_zero)
  have zh: "\<not> is_finite ?qh" if "is_zero ?h" using that by (rule js_div_by_zero)
  have both: "\<not> is_finite (scaleCoefficient m child)" if "is_zero ?w \<and> is_zero ?h"
    using that eq by (simp add: Math_min_not_finite js_div_by_zero)
  have nan: "scaleCoefficient m child = NaN" if "?w = NaN \<or> ?h = NaN"
    using that eq by (auto simp: js_div_def Math_min_def)
  from eq pos zw zh both nan show ?thesis by blast
qed

theorem scaleCoefficient_unguarded_witness:
  "is_finite_positive (scaleCoefficient example_measurements (example_dom 11))
   \<and> is_finite (Number (attributes (example_dom 11) ''width''))
   \<and> is_zero (Number (attributes (example_dom 12) ''width''))
   \<and> is_zero (Number (attributes (example_dom 12) ''height''))
   \<and> \<not> is_finite (scaleCoefficient example_measurements (example_dom 12))
   \<and> Number (attributes (example_dom 17) ''width'') = NaN
   \<and> scaleCoefficient example_measurements (example_dom 17) = NaN"
proof -
  have "scaleCoefficient example_measurements (example_dom 11) = Fin 2"
    by (simp add: scaleCoefficient_positive [where w = 400 and h = 300] Number_examples
        example_getters)
  then have p: "is_finite_positive (scaleCoefficient example_measurements (example_dom 11))"
    by simp
  have z: "is_zero (Number (attributes (example_dom 12) ''width''))"
    "is_zero (Number (attributes (example_dom 12) ''height''))"
    by (simp_all add: Number_examples)
  have n: "Number (attributes (example_dom 17) ''width'') = NaN"
    by (simp add: Number_examples)
  from scaleCoefficient_unguarded [of example_measurements "example_dom 11"]
    scaleCoefficient_unguarded [of example_measurements "example_dom 12"]
    scaleCoefficient_unguarded [of example_measurements "example_dom 17"] p z n
  show ?thesis by blast
qed

text \<open>
  A child that declares a height of 300 and no width, in a viewport of 800 by 600: the
  width converts to zero, the quotient by it is \<open>+\<infinity>\<close>, and the factor is the other
  quotient, 2.
\<close>

theorem missing_width_counterexample:
  "attributes (example_dom 16) ''width'' = None
   \<and> \<not> is_finite_nonzero (Number (attributes (example_dom 16) ''width''))
   \<and> scaleCoefficient example_measurements (example_dom 16) = Fin 2
   \<and> is_finite_positive (scaleCoefficient example_measurements (example_dom 16))"
proof -
  have a: "attributes (example_dom 16) ''width'' = None" by (simp add: example_defs)
  have b: "\<not> is_finite_nonzero (Number (attributes (example_dom 16) ''width''))"
    by (simp add: Number_examples)
  have c: "scaleCoefficient example_measurements (example_dom 16) = Fin 2"
    by (simp add: scaleCoefficient_def Number_examples example_getters js_div_def Math_min_def
        signed_infinity_def)
  from a b c show ?thesis by simp
qed

end
